theory Spec2Isabelle
  imports Main "HOL-Library.AList"
begin

section \<open>Data model\<close>

text \<open>
  A position is a tuple of three Python integers. Piece objects are mutable and are
  shared by reference between the occupancy dictionary, the display array and the
  callers, so they live in an object store addressed by references; a dictionary or
  array cell holds a reference, never a copy.
\<close>

type_synonym Position = "int \<times> int \<times> int"

type_synonym ref = nat

text \<open>The six subclasses of \<^verbatim>\<open>Piece\<close> (pieces.py).\<close>

datatype kind = Pawn | Rook | Knight | Bishop | Queen | King

text \<open>\<^verbatim>\<open>Piece.__init__\<close>: the attributes \<^verbatim>\<open>color\<close> and \<^verbatim>\<open>position\<close>, and the class.\<close>

record Piece =
  cls :: kind
  color :: string
  position :: Position

datatype error = ValueError

text \<open>
  The program state: the attributes of the \<^verbatim>\<open>Board\<close> object (\<^verbatim>\<open>_nx\<close>, \<^verbatim>\<open>_ny\<close>,
  \<^verbatim>\<open>_nz\<close>, the numpy array \<^verbatim>\<open>_board\<close>, the dictionary \<^verbatim>\<open>_pieces\<close>) and the store
  of Piece objects. A Python dictionary keeps insertion order, overwrites in place and
  has unique keys: \<^verbatim>\<open>_pieces\<close> is an association list handled with
  \<^const>\<open>AList.update\<close> and \<^const>\<open>AList.delete\<close>. References below \<open>fresh\<close> are the
  objects created so far.
\<close>

record state =
  nx :: int
  ny :: int
  nz :: int
  board_arr :: "Position \<Rightarrow> ref option"
  pieces :: "(Position \<times> ref) list"
  objs :: "ref \<Rightarrow> Piece"
  fresh :: ref

section \<open>board.py\<close>

text \<open>\<^verbatim>\<open>Board.is_within_bounds\<close>\<close>

fun is_within_bounds :: "state \<Rightarrow> Position \<Rightarrow> bool" where
  "is_within_bounds s (x, y, z) =
     (0 \<le> x \<and> x < nx s \<and> 0 \<le> y \<and> y < ny s \<and> 0 \<le> z \<and> z < nz s)"

text \<open>\<^verbatim>\<open>Board.get_piece\<close>: \<^verbatim>\<open>self._pieces.get(position)\<close>\<close>

definition get_piece :: "state \<Rightarrow> Position \<Rightarrow> ref option" where
  "get_piece s p = map_of (pieces s) p"

text \<open>
  \<^verbatim>\<open>Board.set_piece\<close>. A Piece object is always truthy (the class defines neither
  \<^verbatim>\<open>__bool__\<close> nor \<^verbatim>\<open>__len__\<close>), so \<^verbatim>\<open>if piece\<close> tests for \<^verbatim>\<open>None\<close>. The position is
  in bounds where the array is written, so the write cannot raise. The Piece object
  itself is not touched.
\<close>

definition set_piece :: "state \<Rightarrow> Position \<Rightarrow> ref option \<Rightarrow> state" where
  "set_piece s p piece =
     (if is_within_bounds s p then
        (case piece of
           Some r \<Rightarrow> s\<lparr>pieces := AList.update p r (pieces s),
                       board_arr := (board_arr s)(p := Some r)\<rparr>
         | None \<Rightarrow> s\<lparr>pieces := AList.delete p (pieces s),
                     board_arr := (board_arr s)(p := None)\<rparr>)
      else s)"

section \<open>utils.py\<close>

text \<open>
  The loop of \<^verbatim>\<open>is_clear_path\<close>: \<^verbatim>\<open>for step in range(1, steps)\<close> runs
  \<open>steps - 1\<close> times, starting at \<open>from + step vector\<close>.
\<close>

fun walk :: "state \<Rightarrow> Position \<Rightarrow> Position \<Rightarrow> nat \<Rightarrow> bool" where
  "walk s cur stp 0 = True"
| "walk s (x, y, z) (x_step, y_step, z_step) (Suc n) =
     (if \<not> is_within_bounds s (x, y, z) then False
      else if get_piece s (x, y, z) \<noteq> None then False
      else walk s (x + x_step, y + y_step, z + z_step) (x_step, y_step, z_step) n)"

text \<open>
  \<^verbatim>\<open>is_clear_path\<close>. \<^verbatim>\<open>//\<close> is floor division, as \<open>div\<close> on \<open>int\<close>; the divisor
  \<open>steps\<close> is positive where it is used. On integer triples nothing in the body raises,
  so the \<^verbatim>\<open>except\<close> branch (which would return False) is never taken.
\<close>

fun is_clear_path :: "state \<Rightarrow> Position \<Rightarrow> Position \<Rightarrow> bool" where
  "is_clear_path s (fx, fy, fz) (tx, ty, tz) =
     (let dx = tx - fx; dy = ty - fy; dz = tz - fz;
          steps = max \<bar>dx\<bar> (max \<bar>dy\<bar> \<bar>dz\<bar>)
      in if steps = 0 then True
         else
           let x_step = (if dx \<noteq> 0 then dx div steps else 0);
               y_step = (if dy \<noteq> 0 then dy div steps else 0);
               z_step = (if dz \<noteq> 0 then dz div steps else 0)
           in if \<not> ((dx = 0 \<or> dy = 0 \<or> dz = 0) \<or>
                     (\<bar>dx\<bar> = \<bar>dy\<bar> \<and> \<bar>dy\<bar> = \<bar>dz\<bar> \<and> \<bar>dz\<bar> \<noteq> 0) \<or>
                     (\<bar>dx\<bar> = \<bar>dy\<bar> \<and> \<bar>dy\<bar> \<noteq> 0 \<and> dz = 0) \<or>
                     (\<bar>dx\<bar> = \<bar>dz\<bar> \<and> \<bar>dz\<bar> \<noteq> 0 \<and> dy = 0) \<or>
                     (\<bar>dy\<bar> = \<bar>dz\<bar> \<and> \<bar>dz\<bar> \<noteq> 0 \<and> dx = 0))
              then False
              else walk s (fx + x_step, fy + y_step, fz + z_step)
                     (x_step, y_step, z_step) (nat (steps - 1)))"

section \<open>pieces.py\<close>

text \<open>
  The capture test shared by Rook, Knight, Bishop, Queen and King:
  \<^verbatim>\<open>not target_piece or target_piece.color != self.color\<close>.
\<close>

definition may_land :: "state \<Rightarrow> ref \<Rightarrow> Position \<Rightarrow> bool" where
  "may_land s self to_position =
     (case get_piece s to_position of
        None \<Rightarrow> True
      | Some target_piece \<Rightarrow> color (objs s target_piece) \<noteq> color (objs s self))"

text \<open>\<^verbatim>\<open>Pawn._is_valid_move\<close>\<close>

definition Pawn_is_valid_move :: "state \<Rightarrow> ref \<Rightarrow> Position \<Rightarrow> bool" where
  "Pawn_is_valid_move s self to_position =
     (case (position (objs s self), to_position) of ((fx, fy, fz), (tx, ty, tz)) \<Rightarrow>
        let direction = (if color (objs s self) = ''W'' then 1 else - 1);
            dx = tx - fx; dy = ty - fy; dz = tz - fz
        in if dx = direction \<and> dy = 0 \<and> dz = 0 \<and> get_piece s to_position = None then True
           else if dx = direction \<and> \<bar>dy\<bar> = 1 \<and> dz = 0 then
             (case get_piece s to_position of
                Some target_piece \<Rightarrow> color (objs s target_piece) \<noteq> color (objs s self)
              | None \<Rightarrow> False)
           else False)"

text \<open>\<^verbatim>\<open>Rook._is_valid_move\<close>\<close>

definition Rook_is_valid_move :: "state \<Rightarrow> ref \<Rightarrow> Position \<Rightarrow> bool" where
  "Rook_is_valid_move s self to_position =
     (case (position (objs s self), to_position) of ((fx, fy, fz), (tx, ty, tz)) \<Rightarrow>
        if (fx = tx \<and> fy = ty \<and> fz \<noteq> tz) \<or>
           (fx = tx \<and> fy \<noteq> ty \<and> fz = tz) \<or>
           (fx \<noteq> tx \<and> fy = ty \<and> fz = tz)
        then (if is_clear_path s (position (objs s self)) to_position
              then may_land s self to_position else False)
        else False)"

text \<open>\<^verbatim>\<open>Knight._is_valid_move\<close>\<close>

definition Knight_is_valid_move :: "state \<Rightarrow> ref \<Rightarrow> Position \<Rightarrow> bool" where
  "Knight_is_valid_move s self to_position =
     (case (position (objs s self), to_position) of ((fx, fy, fz), (tx, ty, tz)) \<Rightarrow>
        let dx = \<bar>tx - fx\<bar>; dy = \<bar>ty - fy\<bar>; dz = \<bar>tz - fz\<bar>
        in if dx ^ 2 + dy ^ 2 + dz ^ 2 = 5 then may_land s self to_position else False)"

text \<open>\<^verbatim>\<open>Bishop._is_valid_move\<close>\<close>

definition Bishop_is_valid_move :: "state \<Rightarrow> ref \<Rightarrow> Position \<Rightarrow> bool" where
  "Bishop_is_valid_move s self to_position =
     (case (position (objs s self), to_position) of ((fx, fy, fz), (tx, ty, tz)) \<Rightarrow>
        let dx = tx - fx; dy = ty - fy; dz = tz - fz
        in if (\<bar>dx\<bar> = \<bar>dy\<bar> \<and> \<bar>dy\<bar> = \<bar>dz\<bar> \<and> \<bar>dz\<bar> \<noteq> 0) \<or>
              (\<bar>dx\<bar> = \<bar>dy\<bar> \<and> \<bar>dy\<bar> \<noteq> 0 \<and> dz = 0) \<or>
              (\<bar>dx\<bar> = \<bar>dz\<bar> \<and> \<bar>dz\<bar> \<noteq> 0 \<and> dy = 0) \<or>
              (\<bar>dy\<bar> = \<bar>dz\<bar> \<and> \<bar>dz\<bar> \<noteq> 0 \<and> dx = 0)
           then (if is_clear_path s (position (objs s self)) to_position
                 then may_land s self to_position else False)
           else False)"

text \<open>\<^verbatim>\<open>Queen._is_valid_move\<close>\<close>

definition Queen_is_valid_move :: "state \<Rightarrow> ref \<Rightarrow> Position \<Rightarrow> bool" where
  "Queen_is_valid_move s self to_position =
     (case (position (objs s self), to_position) of ((fx, fy, fz), (tx, ty, tz)) \<Rightarrow>
        let dx = tx - fx; dy = ty - fy; dz = tz - fz
        in if (fx = tx \<or> fy = ty \<or> fz = tz) \<or>
              (\<bar>dx\<bar> = \<bar>dy\<bar> \<and> \<bar>dy\<bar> = \<bar>dz\<bar> \<and> \<bar>dz\<bar> \<noteq> 0) \<or>
              (\<bar>dx\<bar> = \<bar>dy\<bar> \<and> \<bar>dy\<bar> \<noteq> 0 \<and> dz = 0) \<or>
              (\<bar>dx\<bar> = \<bar>dz\<bar> \<and> \<bar>dz\<bar> \<noteq> 0 \<and> dy = 0) \<or>
              (\<bar>dy\<bar> = \<bar>dz\<bar> \<and> \<bar>dz\<bar> \<noteq> 0 \<and> dx = 0)
           then (if is_clear_path s (position (objs s self)) to_position
                 then may_land s self to_position else False)
           else False)"

text \<open>\<^verbatim>\<open>King._is_valid_move\<close>\<close>

definition King_is_valid_move :: "state \<Rightarrow> ref \<Rightarrow> Position \<Rightarrow> bool" where
  "King_is_valid_move s self to_position =
     (case (position (objs s self), to_position) of ((fx, fy, fz), (tx, ty, tz)) \<Rightarrow>
        let dx = \<bar>tx - fx\<bar>; dy = \<bar>ty - fy\<bar>; dz = \<bar>tz - fz\<bar>
        in if max dx (max dy dz) = 1 then may_land s self to_position else False)"

text \<open>
  \<^verbatim>\<open>Piece.is_valid_move\<close>: the two shared checks, then the method of the object's
  class. The origin of the move is the object's own \<^verbatim>\<open>position\<close> attribute. None of
  the six methods raises on integer triples, so the \<^verbatim>\<open>except\<close> branch is never taken.
\<close>

definition is_valid_move :: "state \<Rightarrow> ref \<Rightarrow> Position \<Rightarrow> bool" where
  "is_valid_move s self to_position =
     (if \<not> is_within_bounds s to_position then False
      else if position (objs s self) = to_position then False
      else (case cls (objs s self) of
              Pawn \<Rightarrow> Pawn_is_valid_move s self to_position
            | Rook \<Rightarrow> Rook_is_valid_move s self to_position
            | Knight \<Rightarrow> Knight_is_valid_move s self to_position
            | Bishop \<Rightarrow> Bishop_is_valid_move s self to_position
            | Queen \<Rightarrow> Queen_is_valid_move s self to_position
            | King \<Rightarrow> King_is_valid_move s self to_position))"

text \<open>\<^verbatim>\<open>PieceFactory.create_piece\<close>: a new object, or ValueError for an unknown tag.\<close>

definition piece_classes :: "string \<Rightarrow> kind option" where
  "piece_classes = map_of [(''P'', Pawn), (''R'', Rook), (''N'', Knight),
                           (''B'', Bishop), (''Q'', Queen), (''K'', King)]"

definition create_piece :: "string \<Rightarrow> string \<Rightarrow> Position \<Rightarrow> state \<Rightarrow> error + (ref \<times> state)" where
  "create_piece piece_type c p s =
     (case piece_classes piece_type of
        Some k \<Rightarrow> Inr (fresh s,
                       s\<lparr>objs := (objs s)(fresh s := \<lparr>cls = k, color = c, position = p\<rparr>),
                         fresh := Suc (fresh s)\<rparr>)
      | None \<Rightarrow> Inl ValueError)"

section \<open>board.py: moving, game over, initial position\<close>

text \<open>
  \<^verbatim>\<open>Board.move_piece\<close>: the result and the new state. The assignment
  \<^verbatim>\<open>piece.position = to_pos\<close> changes the one object, whatever refers to it.
\<close>

definition move_piece :: "state \<Rightarrow> Position \<Rightarrow> Position \<Rightarrow> bool \<times> state" where
  "move_piece s from_pos to_pos =
     (case get_piece s from_pos of
        None \<Rightarrow> (False, s)
      | Some piece \<Rightarrow>
          if is_valid_move s piece to_pos then
            (let s1 = set_piece s to_pos (Some piece);
                 s2 = set_piece s1 from_pos None
             in (True, s2\<lparr>objs := (objs s2)(piece := (objs s2 piece)\<lparr>position := to_pos\<rparr>)\<rparr>))
          else (False, s))"

text \<open>
  \<^verbatim>\<open>Board.is_game_over\<close>: the two list comprehensions over \<^verbatim>\<open>self._pieces.values()\<close>.
  Nothing in the \<^verbatim>\<open>try\<close> block raises (the annotation of a local variable is not
  evaluated), so the \<^verbatim>\<open>except\<close> branch is never taken.
\<close>

definition is_game_over :: "state \<Rightarrow> string \<Rightarrow> bool" where
  "is_game_over s opponent_color =
     (let opponent_pieces = filter (\<lambda>piece. color (objs s piece) = opponent_color)
                              (map snd (pieces s));
          opponent_kings = filter (\<lambda>piece. cls (objs s piece) = King) opponent_pieces
      in if opponent_kings = [] then True else False)"

text \<open>
  One round of the loops of \<^verbatim>\<open>Board._place_pieces\<close>: create a piece with the factory
  and store it with \<^verbatim>\<open>set_piece\<close>, position after position.
\<close>

fun place_all :: "string \<Rightarrow> (string \<times> Position) list \<Rightarrow> state \<Rightarrow> error + state" where
  "place_all c [] s = Inr s"
| "place_all c ((piece_type, p) # rest) s =
     (case create_piece piece_type c p s of
        Inl e \<Rightarrow> Inl e
      | Inr (r, s') \<Rightarrow> place_all c rest (set_piece s' p (Some r)))"

text \<open>
  \<^verbatim>\<open>Board._place_pieces\<close>: the six loops run one after the other, which is one run over
  the six position lists in that order. \<^verbatim>\<open>range(n)\<close> is \<open>[0..n - 1]\<close>, empty for
  \<open>n \<le> 0\<close>.
\<close>

definition place_pieces :: "string \<Rightarrow> int \<Rightarrow> state \<Rightarrow> error + state" where
  "place_pieces c start_x s =
     (let direction = (if c = ''W'' then 1 else - 1);
          pawn_row = start_x + direction;
          pawn_positions = concat (map (\<lambda>y. map (\<lambda>z. (pawn_row, y, z)) [0..nz s - 1]) [0..ny s - 1]);
          rook_positions = [(start_x, 0, 0), (start_x, 0, nz s - 1),
                            (start_x, ny s - 1, 0), (start_x, ny s - 1, nz s - 1)];
          knight_positions = [(start_x, 0, 1), (start_x, 0, nz s - 2),
                              (start_x, ny s - 1, 1), (start_x, ny s - 1, nz s - 2)];
          bishop_positions = [(start_x, 0, 2), (start_x, 0, nz s - 3),
                              (start_x, ny s - 1, 2), (start_x, ny s - 1, nz s - 3)];
          center_y = ny s div 2;
          center_z = nz s div 2;
          queen_positions = [(start_x, center_y - 1, center_z - 1), (start_x, center_y - 1, center_z)];
          king_positions = [(start_x, center_y, center_z - 1), (start_x, center_y, center_z)]
      in place_all c (map (Pair ''P'') pawn_positions @ map (Pair ''R'') rook_positions @
                      map (Pair ''N'') knight_positions @ map (Pair ''B'') bishop_positions @
                      map (Pair ''Q'') queen_positions @ map (Pair ''K'') king_positions) s)"

text \<open>\<^verbatim>\<open>Board.initialize_board\<close>\<close>

definition initialize_board :: "state \<Rightarrow> error + state" where
  "initialize_board s =
     (case place_pieces ''W'' 0 s of
        Inl e \<Rightarrow> Inl e
      | Inr s' \<Rightarrow> place_pieces ''B'' (nx s' - 1) s')"

text \<open>
  \<^verbatim>\<open>Board.__init__\<close> in a program whose Piece objects so far are those of \<open>s\<close>:
  \<^verbatim>\<open>np.full\<close> raises ValueError for a negative dimension; otherwise the array and the
  dictionary start empty and \<^verbatim>\<open>initialize_board\<close> runs.
\<close>

definition Board_init :: "int \<Rightarrow> int \<Rightarrow> int \<Rightarrow> state \<Rightarrow> error + state" where
  "Board_init nx0 ny0 nz0 s =
     (if nx0 < 0 \<or> ny0 < 0 \<or> nz0 < 0 then Inl ValueError
      else initialize_board (s\<lparr>nx := nx0, ny := ny0, nz := nz0,
                               board_arr := (\<lambda>_. None), pieces := []\<rparr>))"

section \<open>Board invariants and reachable states\<close>

text \<open>
  Three properties of a state, each checked entry by entry of the dictionary: every key
  is inside the cuboid; every stored reference is an object created so far; the
  \<^verbatim>\<open>position\<close> attribute of every stored object equals the key it is stored under.
\<close>

definition keys_in_bounds :: "state \<Rightarrow> bool" where
  "keys_in_bounds s = list_all (\<lambda>(p, r). is_within_bounds s p) (pieces s)"

definition allocated :: "state \<Rightarrow> bool" where
  "allocated s = list_all (\<lambda>(p, r). r < fresh s) (pieces s)"

definition cache_synced :: "state \<Rightarrow> bool" where
  "cache_synced s = list_all (\<lambda>(p, r). position (objs s r) = p) (pieces s)"

definition board_inv :: "state \<Rightarrow> bool" where
  "board_inv s = (keys_in_bounds s \<and> allocated s \<and> cache_synced s)"

text \<open>
  The states a program reaches from a new board with the operations of the Board and
  of the factory, when \<^verbatim>\<open>set_piece\<close> is only called the way \<^verbatim>\<open>_place_pieces\<close> and the
  tests call it: with \<^verbatim>\<open>None\<close>, or with an existing object whose \<^verbatim>\<open>position\<close> is the
  position it is stored at.
\<close>

inductive reach :: "state \<Rightarrow> bool" where
  reach_new: "Board_init nx0 ny0 nz0 s0 = Inr s \<Longrightarrow> reach s"
| reach_create: "reach s \<Longrightarrow> create_piece piece_type c p s = Inr (r, s') \<Longrightarrow> reach s'"
| reach_clear: "reach s \<Longrightarrow> reach (set_piece s p None)"
| reach_set: "reach s \<Longrightarrow> r < fresh s \<Longrightarrow> position (objs s r) = p \<Longrightarrow>
              reach (set_piece s p (Some r))"
| reach_move: "reach s \<Longrightarrow> move_piece s from_pos to_pos = (ok, s') \<Longrightarrow> reach s'"
| reach_initialize: "reach s \<Longrightarrow> initialize_board s = Inr s' \<Longrightarrow> reach s'"

section \<open>Concrete positions\<close>

text \<open>
  The board of the test suite's \<^verbatim>\<open>setUp\<close>: default dimensions 8 x 4 x 4, array and
  dictionary emptied. No Piece object is in use yet.
\<close>

definition empty_board :: state where
  "empty_board = \<lparr>nx = 8, ny = 4, nz = 4, board_arr = (\<lambda>_. None), pieces = [],
     objs = (\<lambda>_. \<lparr>cls = Pawn, color = ''W'', position = (0, 0, 0)\<rparr>), fresh = 0\<rparr>"

text \<open>
  The two lines with which the tests put a piece on the board:
  \<^verbatim>\<open>piece = factory.create_piece(t, c, p); board.set_piece(p, piece)\<close>.
\<close>

definition place :: "string \<Rightarrow> string \<Rightarrow> Position \<Rightarrow> state \<Rightarrow> state" where
  "place piece_type c p s = (case place_all c [(piece_type, p)] s of Inr s' \<Rightarrow> s' | Inl e \<Rightarrow> s)"

text \<open>\<^verbatim>\<open>test_queen_invalid_moves\<close>: a white queen (object 0) at (0,0,0).\<close>

definition queen_scene :: state where
  "queen_scene = place ''Q'' ''W'' (0, 0, 0) empty_board"

text \<open>A white pawn (object 0) at (1,1,1) and a black pawn (object 1) at (2,1,2).\<close>

definition pawn_scene :: state where
  "pawn_scene = place ''P'' ''B'' (2, 1, 2) (place ''P'' ''W'' (1, 1, 1) empty_board)"

text \<open>\<^verbatim>\<open>test_rook_capture\<close>: a white rook (object 0) at (0,0,0), a black pawn (object 1) at (0,0,3).\<close>

definition rook_scene :: state where
  "rook_scene = place ''P'' ''B'' (0, 0, 3) (place ''R'' ''W'' (0, 0, 0) empty_board)"

text \<open>\<^verbatim>\<open>test_is_game_over\<close>: a white king (object 0) at (0,0,0).\<close>

definition king_scene :: state where
  "king_scene = place ''K'' ''W'' (0, 0, 0) empty_board"

text \<open>\<^verbatim>\<open>test_knight_jumping\<close>: a white knight (object 0) at (1,1,1), a black pawn (object 1) at (2,1,1).\<close>

definition knight_scene :: state where
  "knight_scene = place ''P'' ''B'' (2, 1, 1) (place ''N'' ''W'' (1, 1, 1) empty_board)"

text \<open>The rook position, after \<^verbatim>\<open>board.set_piece((0, 3, 0), pawn)\<close> with the same black pawn object.\<close>

definition alias_scene :: state where
  "alias_scene = set_piece rook_scene (0, 3, 0) (Some 1)"

text \<open>\<^verbatim>\<open>Board()\<close>: a new board of the default dimensions.\<close>

definition default_board :: state where
  "default_board = (case Board_init 8 4 4 empty_board of Inr s \<Rightarrow> s | Inl e \<Rightarrow> empty_board)"

text \<open>
  On the new board, \<^verbatim>\<open>rook = factory.create_piece('R', 'W', (0, 0, 0))\<close> followed by
  \<^verbatim>\<open>board.set_piece((3, 0, 0), rook)\<close>.
\<close>

definition rook_made :: "ref \<times> state" where
  "rook_made = (case create_piece ''R'' ''W'' (0, 0, 0) default_board of
                  Inr x \<Rightarrow> x | Inl e \<Rightarrow> (0, default_board))"

definition misplaced_rook :: state where
  "misplaced_rook = set_piece (snd rook_made) (3, 0, 0) (Some (fst rook_made))"

text \<open>The same rook stored where its \<^verbatim>\<open>position\<close> says: \<^verbatim>\<open>board.set_piece((0, 0, 0), rook)\<close>.\<close>

definition placed_rook :: state where
  "placed_rook = set_piece (snd rook_made) (0, 0, 0) (Some (fst rook_made))"

section \<open>Basic facts\<close>

declare is_clear_path.simps [simp del]

lemmas scene_defs = empty_board_def place_def create_piece_def piece_classes_def set_piece_def
  get_piece_def

lemma set_piece_frame [simp]:
  "nx (set_piece s p x) = nx s" "ny (set_piece s p x) = ny s" "nz (set_piece s p x) = nz s"
  "objs (set_piece s p x) = objs s" "fresh (set_piece s p x) = fresh s"
  by (simp_all add: set_piece_def split: option.splits)

lemma is_within_bounds_dims:
  "nx s' = nx s \<Longrightarrow> ny s' = ny s \<Longrightarrow> nz s' = nz s \<Longrightarrow> is_within_bounds s' p = is_within_bounds s p"
  by (cases p) simp

lemma is_within_bounds_set_piece [simp]:
  "is_within_bounds (set_piece s p x) q = is_within_bounds s q"
  by (rule is_within_bounds_dims) simp_all

lemma is_within_bounds_objs_update [simp]:
  "is_within_bounds (s\<lparr>objs := f\<rparr>) p = is_within_bounds s p"
  by (rule is_within_bounds_dims) simp_all

lemma get_piece_objs_update [simp]: "get_piece (s\<lparr>objs := f\<rparr>) p = get_piece s p"
  by (simp add: get_piece_def)

lemma get_piece_set_piece:
  "get_piece (set_piece s p x) q = (if is_within_bounds s p \<and> q = p then x else get_piece s q)"
  by (auto simp: set_piece_def get_piece_def update_conv' delete_conv' split: option.splits)

lemma entry_get_piece: "get_piece s p = Some r \<Longrightarrow> (p, r) \<in> set (pieces s)"
  by (simp add: get_piece_def map_of_SomeD)

lemma keys_in_boundsD: "keys_in_bounds s \<Longrightarrow> get_piece s p = Some r \<Longrightarrow> is_within_bounds s p"
  using entry_get_piece [of s p r] by (auto simp: keys_in_bounds_def list_all_iff)

lemma may_land_iff:
  "may_land s self t \<longleftrightarrow>
     (get_piece s t = None \<or> (\<exists>q. get_piece s t = Some q \<and> color (objs s q) \<noteq> color (objs s self)))"
  by (simp add: may_land_def split: option.splits)

lemma walk_numeral:
  "walk s (x, y, z) (x_step, y_step, z_step) (numeral k) =
     (if \<not> is_within_bounds s (x, y, z) then False
      else if get_piece s (x, y, z) \<noteq> None then False
      else walk s (x + x_step, y + y_step, z + z_step) (x_step, y_step, z_step) (pred_numeral k))"
  unfolding numeral_eq_Suc [of k] by (simp only: walk.simps)

subsection \<open>No piece lands on a piece of its own colour\<close>

lemma Pawn_lands:
  "Pawn_is_valid_move s r t \<Longrightarrow> get_piece s t = Some q \<Longrightarrow> color (objs s q) \<noteq> color (objs s r)"
  unfolding Pawn_is_valid_move_def Let_def
  by (cases "position (objs s r)", cases t) (simp split: if_splits)

lemma Rook_lands: "Rook_is_valid_move s r t \<Longrightarrow> may_land s r t"
  unfolding Rook_is_valid_move_def
  by (cases "position (objs s r)", cases t) (simp split: if_splits)

lemma Knight_lands: "Knight_is_valid_move s r t \<Longrightarrow> may_land s r t"
  unfolding Knight_is_valid_move_def Let_def
  by (cases "position (objs s r)", cases t) (simp split: if_splits)

lemma Bishop_lands: "Bishop_is_valid_move s r t \<Longrightarrow> may_land s r t"
  unfolding Bishop_is_valid_move_def Let_def
  by (cases "position (objs s r)", cases t) (simp split: if_splits)

lemma Queen_lands: "Queen_is_valid_move s r t \<Longrightarrow> may_land s r t"
  unfolding Queen_is_valid_move_def Let_def
  by (cases "position (objs s r)", cases t) (simp split: if_splits)

lemma King_lands: "King_is_valid_move s r t \<Longrightarrow> may_land s r t"
  unfolding King_is_valid_move_def Let_def
  by (cases "position (objs s r)", cases t) (simp split: if_splits)

lemma is_valid_move_occupied_same_color:
  assumes "get_piece s t = Some q" "color (objs s q) = color (objs s r)"
  shows "\<not> is_valid_move s r t"
proof
  assume v: "is_valid_move s r t"
  have ml: "\<not> may_land s r t" using assms by (simp add: may_land_def)
  show False
  proof (cases "cls (objs s r)")
    case Pawn
    with v have "Pawn_is_valid_move s r t" by (simp add: is_valid_move_def split: if_splits)
    then show False using Pawn_lands assms by blast
  next
    case Rook
    with v have "Rook_is_valid_move s r t" by (simp add: is_valid_move_def split: if_splits)
    then show False using Rook_lands ml by blast
  next
    case Knight
    with v have "Knight_is_valid_move s r t" by (simp add: is_valid_move_def split: if_splits)
    then show False using Knight_lands ml by blast
  next
    case Bishop
    with v have "Bishop_is_valid_move s r t" by (simp add: is_valid_move_def split: if_splits)
    then show False using Bishop_lands ml by blast
  next
    case Queen
    with v have "Queen_is_valid_move s r t" by (simp add: is_valid_move_def split: if_splits)
    then show False using Queen_lands ml by blast
  next
    case King
    with v have "King_is_valid_move s r t" by (simp add: is_valid_move_def split: if_splits)
    then show False using King_lands ml by blast
  qed
qed

lemma is_valid_move_in_bounds: "is_valid_move s r t \<Longrightarrow> is_within_bounds s t"
  by (simp add: is_valid_move_def split: if_splits)

lemma move_piece_True:
  assumes "move_piece s from_pos to_pos = (True, s')"
  obtains piece where "get_piece s from_pos = Some piece" "is_valid_move s piece to_pos"
    "s' = (set_piece (set_piece s to_pos (Some piece)) from_pos None)
            \<lparr>objs := (objs s)(piece := (objs s piece)\<lparr>position := to_pos\<rparr>)\<rparr>"
  using assms by (auto simp: move_piece_def Let_def split: option.splits if_splits)

subsection \<open>The initial position is always built\<close>

lemma create_piece_Inr:
  assumes "create_piece piece_type c p s = Inr (r, s')"
  shows "r = fresh s" "fresh s' = Suc (fresh s)" "position (objs s' r) = p" "color (objs s' r) = c"
    "\<And>q. q \<noteq> fresh s \<Longrightarrow> objs s' q = objs s q"
    "pieces s' = pieces s" "nx s' = nx s" "ny s' = ny s" "nz s' = nz s"
  using assms by (auto simp: create_piece_def split: option.splits)

lemma place_all_total:
  "\<forall>(t, p) \<in> set l. piece_classes t \<noteq> None \<Longrightarrow> \<exists>s'. place_all c l s = Inr s'"
proof (induction l arbitrary: s)
  case Nil
  then show ?case by simp
next
  case (Cons a l)
  obtain t p where a: "a = (t, p)" by (cases a)
  with Cons.prems obtain k where k: "piece_classes t = Some k" by auto
  from Cons.prems have "\<forall>(t, p) \<in> set l. piece_classes t \<noteq> None" by simp
  from Cons.IH [OF this] show ?case using a k by (simp add: create_piece_def)
qed

lemma place_all_frame:
  "place_all c l s = Inr s' \<Longrightarrow>
     nx s' = nx s \<and> ny s' = ny s \<and> nz s' = nz s \<and> fresh s \<le> fresh s' \<and>
     (\<forall>q < fresh s. objs s' q = objs s q)"
proof (induction l arbitrary: s)
  case Nil
  then show ?case by simp
next
  case (Cons a l)
  obtain t p where a: "a = (t, p)" by (cases a)
  from Cons.prems a obtain r s1 where
    c: "create_piece t c p s = Inr (r, s1)" and
    rest: "place_all c l (set_piece s1 p (Some r)) = Inr s'"
    by (auto split: sum.splits)
  note f = create_piece_Inr [OF c]
  from Cons.IH [OF rest] f(2,7,8,9) f(5) show ?case by auto
qed

lemma place_pieces_total: "\<exists>s'. place_pieces c x s = Inr s'"
  unfolding place_pieces_def Let_def
  by (rule place_all_total) (auto simp: piece_classes_def)

lemma place_pieces_frame:
  "place_pieces c x s = Inr s' \<Longrightarrow>
     nx s' = nx s \<and> ny s' = ny s \<and> nz s' = nz s \<and> fresh s \<le> fresh s' \<and>
     (\<forall>q < fresh s. objs s' q = objs s q)"
  unfolding place_pieces_def Let_def by (rule place_all_frame)

lemma initialize_board_total: "\<exists>s'. initialize_board s = Inr s'"
proof -
  obtain s1 where 1: "place_pieces ''W'' 0 s = Inr s1" using place_pieces_total by blast
  obtain s2 where "place_pieces ''B'' (nx s1 - 1) s1 = Inr s2" using place_pieces_total by blast
  with 1 show ?thesis by (simp add: initialize_board_def)
qed

lemma initialize_board_frame:
  assumes "initialize_board s = Inr s'"
  shows "nx s' = nx s \<and> ny s' = ny s \<and> nz s' = nz s \<and> fresh s \<le> fresh s' \<and>
     (\<forall>q < fresh s. objs s' q = objs s q)"
proof -
  from assms obtain s1 where 1: "place_pieces ''W'' 0 s = Inr s1"
    and 2: "place_pieces ''B'' (nx s1 - 1) s1 = Inr s'"
    by (auto simp: initialize_board_def split: sum.splits)
  from place_pieces_frame [OF 1] place_pieces_frame [OF 2] show ?thesis by auto
qed

lemma Board_init_total:
  assumes "0 \<le> a" "0 \<le> b" "0 \<le> c"
  shows "\<exists>s'. Board_init a b c s = Inr s' \<and> nx s' = a \<and> ny s' = b \<and> nz s' = c"
proof -
  let ?e = "s\<lparr>nx := a, ny := b, nz := c, board_arr := (\<lambda>_. None), pieces := []\<rparr>"
  obtain s' where i: "initialize_board ?e = Inr s'" using initialize_board_total by blast
  from initialize_board_frame [OF i] have "nx s' = a \<and> ny s' = b \<and> nz s' = c" by simp
  with i assms show ?thesis by (simp add: Board_init_def)
qed

lemma default_board_facts:
  "Board_init 8 4 4 empty_board = Inr default_board" "nx default_board = 8" "ny default_board = 4"
  "nz default_board = 4"
proof -
  obtain s' where "Board_init 8 4 4 empty_board = Inr s' \<and> nx s' = 8 \<and> ny s' = 4 \<and> nz s' = 4"
    using Board_init_total [of 8 4 4 empty_board] by auto
  then show "Board_init 8 4 4 empty_board = Inr default_board" "nx default_board = 8"
    "ny default_board = 4" "nz default_board = 4"
    by (simp_all add: default_board_def)
qed

subsection \<open>The invariant of the reachable states\<close>

lemma set_update_subset: "set (AList.update k v al) \<subseteq> insert (k, v) (set al)"
  by (induction al) auto

lemma set_delete_iff: "(k', v) \<in> set (AList.delete k al) \<longleftrightarrow> (k', v) \<in> set al \<and> k' \<noteq> k"
  by (auto simp: AList.delete_eq)

lemma entry_set_piece_Some:
  assumes "(k, q) \<in> set (pieces (set_piece s p (Some r)))"
  shows "(k = p \<and> q = r \<and> is_within_bounds s p) \<or> (k, q) \<in> set (pieces s)"
proof (cases "is_within_bounds s p")
  case True
  with assms have "(k, q) \<in> set (AList.update p r (pieces s))" by (simp add: set_piece_def)
  with set_update_subset [of p r "pieces s"] True show ?thesis by auto
next
  case False
  with assms show ?thesis by (simp add: set_piece_def)
qed

lemma entry_set_piece_None:
  assumes "(k, q) \<in> set (pieces (set_piece s p None))"
  shows "(k, q) \<in> set (pieces s) \<and> (is_within_bounds s p \<longrightarrow> k \<noteq> p)"
  using assms by (cases "is_within_bounds s p") (simp_all add: set_piece_def set_delete_iff)

lemma board_invI:
  assumes "\<And>k q. (k, q) \<in> set (pieces s) \<Longrightarrow>
             is_within_bounds s k \<and> q < fresh s \<and> position (objs s q) = k"
  shows "board_inv s"
  using assms
  by (auto simp: board_inv_def keys_in_bounds_def allocated_def cache_synced_def list_all_iff)

lemma board_invD:
  assumes "board_inv s" "(k, q) \<in> set (pieces s)"
  shows "is_within_bounds s k" "q < fresh s" "position (objs s q) = k"
  using assms
  by (auto simp: board_inv_def keys_in_bounds_def allocated_def cache_synced_def list_all_iff)

lemma board_inv_set_Some:
  assumes "board_inv s" "r < fresh s" "position (objs s r) = p"
  shows "board_inv (set_piece s p (Some r))"
proof (rule board_invI)
  fix k q assume "(k, q) \<in> set (pieces (set_piece s p (Some r)))"
  then have "(k = p \<and> q = r \<and> is_within_bounds s p) \<or> (k, q) \<in> set (pieces s)"
    by (rule entry_set_piece_Some)
  then show "is_within_bounds (set_piece s p (Some r)) k \<and> q < fresh (set_piece s p (Some r)) \<and>
             position (objs (set_piece s p (Some r)) q) = k"
  proof
    assume "k = p \<and> q = r \<and> is_within_bounds s p"
    then show ?thesis using assms(2,3) by simp
  next
    assume e: "(k, q) \<in> set (pieces s)"
    from board_invD [OF assms(1) e] show ?thesis by simp
  qed
qed

lemma board_inv_set_None:
  assumes "board_inv s"
  shows "board_inv (set_piece s p None)"
proof (rule board_invI)
  fix k q assume "(k, q) \<in> set (pieces (set_piece s p None))"
  then have e: "(k, q) \<in> set (pieces s)" using entry_set_piece_None by blast
  from board_invD [OF assms e]
  show "is_within_bounds (set_piece s p None) k \<and> q < fresh (set_piece s p None) \<and>
        position (objs (set_piece s p None) q) = k"
    by simp
qed

lemma board_inv_create:
  assumes "board_inv s" "create_piece piece_type c p s = Inr (r, s')"
  shows "board_inv s'"
proof (rule board_invI)
  note c = create_piece_Inr [OF assms(2)]
  fix k q assume "(k, q) \<in> set (pieces s')"
  then have e: "(k, q) \<in> set (pieces s)" by (simp add: c(6))
  from board_invD [OF assms(1) e]
  have "is_within_bounds s k" "q < fresh s" "position (objs s q) = k" .
  then show "is_within_bounds s' k \<and> q < fresh s' \<and> position (objs s' q) = k"
    using c(2) c(5) [of q] is_within_bounds_dims [OF c(7) c(8) c(9)] by auto
qed

lemma board_inv_place_all: "board_inv s \<Longrightarrow> place_all c l s = Inr s' \<Longrightarrow> board_inv s'"
proof (induction l arbitrary: s)
  case Nil
  then show ?case by simp
next
  case (Cons a l)
  obtain piece_type p where a: "a = (piece_type, p)" by (cases a)
  from Cons.prems(2) a obtain r s1 where
    c: "create_piece piece_type c p s = Inr (r, s1)" and
    rest: "place_all c l (set_piece s1 p (Some r)) = Inr s'"
    by (auto split: sum.splits)
  have "board_inv s1" using Cons.prems(1) c by (rule board_inv_create)
  moreover have "r < fresh s1" "position (objs s1 r) = p"
    using create_piece_Inr(1,2,3) [OF c] by simp_all
  ultimately have "board_inv (set_piece s1 p (Some r))" by (rule board_inv_set_Some)
  then show ?case using rest by (rule Cons.IH)
qed

lemma board_inv_initialize_board: "board_inv s \<Longrightarrow> initialize_board s = Inr s' \<Longrightarrow> board_inv s'"
  unfolding initialize_board_def place_pieces_def Let_def
  by (auto split: sum.splits dest: board_inv_place_all)

lemma board_inv_Board_init:
  assumes "Board_init nx0 ny0 nz0 s0 = Inr s"
  shows "board_inv s"
proof -
  let ?e = "s0\<lparr>nx := nx0, ny := ny0, nz := nz0, board_arr := (\<lambda>_. None), pieces := []\<rparr>"
  have "board_inv ?e" by (rule board_invI) simp
  moreover from assms have "initialize_board ?e = Inr s"
    by (simp add: Board_init_def split: if_splits)
  ultimately show "board_inv s" by (rule board_inv_initialize_board)
qed

lemma board_inv_move:
  assumes "board_inv s" "move_piece s from_pos to_pos = (ok, s')"
  shows "board_inv s'"
proof (cases "get_piece s from_pos")
  case None
  with assms show ?thesis by (simp add: move_piece_def)
next
  case (Some piece)
  show ?thesis
  proof (cases "is_valid_move s piece to_pos")
    case False
    with Some assms show ?thesis by (simp add: move_piece_def)
  next
    case True
    let ?s2 = "set_piece (set_piece s to_pos (Some piece)) from_pos None"
    have s': "s' = ?s2\<lparr>objs := (objs ?s2)(piece := (objs ?s2 piece)\<lparr>position := to_pos\<rparr>)\<rparr>"
      using assms(2) Some True by (simp add: move_piece_def Let_def)
    have fp: "(from_pos, piece) \<in> set (pieces s)" using Some by (rule entry_get_piece)
    have fb: "is_within_bounds s from_pos" and pf: "position (objs s piece) = from_pos"
      and pa: "piece < fresh s" using board_invD [OF assms(1) fp] by simp_all
    have tb: "is_within_bounds s to_pos" using True by (rule is_valid_move_in_bounds)
    show ?thesis
    proof (rule board_invI)
      fix k q assume "(k, q) \<in> set (pieces s')"
      then have "(k, q) \<in> set (pieces ?s2)" by (simp add: s')
      then have e1: "(k, q) \<in> set (pieces (set_piece s to_pos (Some piece)))" and kf: "k \<noteq> from_pos"
        using entry_set_piece_None [of k q "set_piece s to_pos (Some piece)" from_pos] fb by simp_all
      from e1 have "(k = to_pos \<and> q = piece) \<or> (k, q) \<in> set (pieces s)"
        using entry_set_piece_Some by blast
      then show "is_within_bounds s' k \<and> q < fresh s' \<and> position (objs s' q) = k"
      proof
        assume "k = to_pos \<and> q = piece"
        then show ?thesis using tb pa by (simp add: s')
      next
        assume e: "(k, q) \<in> set (pieces s)"
        from board_invD [OF assms(1) e]
        have i: "is_within_bounds s k" "q < fresh s" "position (objs s q) = k" .
        with kf pf have "q \<noteq> piece" by auto
        then show ?thesis using i by (simp add: s')
      qed
    qed
  qed
qed

lemma reach_board_inv: "reach s \<Longrightarrow> board_inv s"
proof (induction rule: reach.induct)
  case (reach_new nx0 ny0 nz0 s0 s)
  then show ?case by (rule board_inv_Board_init)
next
  case (reach_create s piece_type c p r s')
  then show ?case using board_inv_create by blast
next
  case (reach_clear s p)
  then show ?case by (simp add: board_inv_set_None)
next
  case (reach_set s r p)
  then show ?case by (simp add: board_inv_set_Some)
next
  case (reach_move s from_pos to_pos ok s')
  then show ?case using board_inv_move by blast
next
  case (reach_initialize s s')
  then show ?case using board_inv_initialize_board by blast
qed

subsection \<open>Squared length five\<close>

lemma sq_bound:
  fixes a b c :: int
  assumes "a\<^sup>2 + b\<^sup>2 + c\<^sup>2 = 5"
  shows "\<bar>a\<bar> \<le> 2"
proof (rule ccontr)
  assume "\<not> \<bar>a\<bar> \<le> 2"
  then have "\<bar>3::int\<bar> \<le> \<bar>a\<bar>" by simp
  then have "(3::int)\<^sup>2 \<le> a\<^sup>2" by (simp only: abs_le_square_iff)
  moreover have "0 \<le> b\<^sup>2" "0 \<le> c\<^sup>2" by simp_all
  ultimately show False using assms by simp
qed

lemma small_abs: fixes x :: int shows "\<bar>x\<bar> \<le> 2 \<Longrightarrow> \<bar>x\<bar> = 0 \<or> \<bar>x\<bar> = 1 \<or> \<bar>x\<bar> = 2"
  by arith

lemma enum3:
  fixes x y z :: int
  assumes x: "x = 0 \<or> x = 1 \<or> x = 2" and y: "y = 0 \<or> y = 1 \<or> y = 2"
    and z: "z = 0 \<or> z = 1 \<or> z = 2" and s: "x\<^sup>2 + y\<^sup>2 + z\<^sup>2 = 5"
  shows "(x, y, z) \<in> {(0, 1, 2), (0, 2, 1), (1, 0, 2), (1, 2, 0), (2, 0, 1), (2, 1, 0)}"
  using x y z s by (elim disjE) simp_all

lemma knight_shape:
  fixes a b c :: int
  shows "a\<^sup>2 + b\<^sup>2 + c\<^sup>2 = 5 \<longleftrightarrow>
     (\<bar>a\<bar>, \<bar>b\<bar>, \<bar>c\<bar>) \<in> {(0, 1, 2), (0, 2, 1), (1, 0, 2), (1, 2, 0), (2, 0, 1), (2, 1, 0)}"
proof
  assume h: "a\<^sup>2 + b\<^sup>2 + c\<^sup>2 = 5"
  have "\<bar>a\<bar> \<le> 2" using sq_bound [of a b c] h by simp
  then have a: "\<bar>a\<bar> = 0 \<or> \<bar>a\<bar> = 1 \<or> \<bar>a\<bar> = 2" by (rule small_abs)
  have "\<bar>b\<bar> \<le> 2" using sq_bound [of b a c] h by simp
  then have b: "\<bar>b\<bar> = 0 \<or> \<bar>b\<bar> = 1 \<or> \<bar>b\<bar> = 2" by (rule small_abs)
  have "\<bar>c\<bar> \<le> 2" using sq_bound [of c a b] h by simp
  then have c: "\<bar>c\<bar> = 0 \<or> \<bar>c\<bar> = 1 \<or> \<bar>c\<bar> = 2" by (rule small_abs)
  have "\<bar>a\<bar>\<^sup>2 + \<bar>b\<bar>\<^sup>2 + \<bar>c\<bar>\<^sup>2 = 5" using h by simp
  with a b c show "(\<bar>a\<bar>, \<bar>b\<bar>, \<bar>c\<bar>) \<in> {(0, 1, 2), (0, 2, 1), (1, 0, 2), (1, 2, 0), (2, 0, 1), (2, 1, 0)}"
    by (rule enum3)
next
  assume "(\<bar>a\<bar>, \<bar>b\<bar>, \<bar>c\<bar>) \<in> {(0, 1, 2), (0, 2, 1), (1, 0, 2), (1, 2, 0), (2, 0, 1), (2, 1, 0)}"
  then have "\<bar>a\<bar>\<^sup>2 + \<bar>b\<bar>\<^sup>2 + \<bar>c\<bar>\<^sup>2 = 5" by (elim insertE emptyE) simp_all
  then show "a\<^sup>2 + b\<^sup>2 + c\<^sup>2 = 5" by simp
qed

section \<open>Facts about the concrete positions\<close>

lemmas move_defs = is_valid_move_def may_land_def Let_def is_clear_path.simps walk_numeral

lemma queen_scene_facts:
  "nx queen_scene = 8" "ny queen_scene = 4" "nz queen_scene = 4"
  "get_piece queen_scene (0, 0, 0) = Some 0" "get_piece queen_scene (2, 1, 0) = None"
  "get_piece queen_scene (1, 0, 0) = None"
  "objs queen_scene 0 = \<lparr>cls = Queen, color = ''W'', position = (0, 0, 0)\<rparr>"
  by (simp_all add: queen_scene_def scene_defs)

lemma pawn_scene_facts:
  "nx pawn_scene = 8" "ny pawn_scene = 4" "nz pawn_scene = 4"
  "get_piece pawn_scene (1, 1, 1) = Some 0" "get_piece pawn_scene (2, 1, 2) = Some 1"
  "objs pawn_scene 0 = \<lparr>cls = Pawn, color = ''W'', position = (1, 1, 1)\<rparr>"
  "objs pawn_scene (Suc 0) = \<lparr>cls = Pawn, color = ''B'', position = (2, 1, 2)\<rparr>"
  by (simp_all add: pawn_scene_def scene_defs)

lemma rook_scene_facts:
  "nx rook_scene = 8" "ny rook_scene = 4" "nz rook_scene = 4"
  "pieces rook_scene = [((0, 0, 0), 0), ((0, 0, 3), 1)]"
  "objs rook_scene 0 = \<lparr>cls = Rook, color = ''W'', position = (0, 0, 0)\<rparr>"
  "objs rook_scene (Suc 0) = \<lparr>cls = Pawn, color = ''B'', position = (0, 0, 3)\<rparr>"
  by (simp_all add: rook_scene_def scene_defs)

lemma alias_scene_facts:
  "nx alias_scene = 8" "ny alias_scene = 4" "nz alias_scene = 4"
  "pieces alias_scene = [((0, 0, 0), 0), ((0, 0, 3), 1), ((0, 3, 0), 1)]"
  "objs alias_scene 0 = \<lparr>cls = Rook, color = ''W'', position = (0, 0, 0)\<rparr>"
  "objs alias_scene (Suc 0) = \<lparr>cls = Pawn, color = ''B'', position = (0, 0, 3)\<rparr>"
  by (simp_all add: alias_scene_def set_piece_def rook_scene_facts)

lemma king_scene_facts:
  "pieces king_scene = [((0, 0, 0), 0)]"
  "objs king_scene 0 = \<lparr>cls = King, color = ''W'', position = (0, 0, 0)\<rparr>"
  by (simp_all add: king_scene_def scene_defs)

lemma knight_scene_facts:
  "nx knight_scene = 8" "ny knight_scene = 4" "nz knight_scene = 4"
  "pieces knight_scene = [((1, 1, 1), 0), ((2, 1, 1), 1)]"
  "objs knight_scene 0 = \<lparr>cls = Knight, color = ''W'', position = (1, 1, 1)\<rparr>"
  by (simp_all add: knight_scene_def scene_defs)

lemma rook_made_facts:
  "create_piece ''R'' ''W'' (0, 0, 0) default_board = Inr (fst rook_made, snd rook_made)"
  "nx (snd rook_made) = 8" "ny (snd rook_made) = 4" "nz (snd rook_made) = 4"
  "fst rook_made < fresh (snd rook_made)"
  "position (objs (snd rook_made) (fst rook_made)) = (0, 0, 0)"
  by (simp_all add: rook_made_def create_piece_def piece_classes_def default_board_facts)

section \<open>The queen\<close>

text \<open>
  C1. The claim: a queen's move to an in-bounds cell other than its own is accepted iff
  the vector is a rook line or a bishop diagonal, the path is clear and the destination
  is empty or holds the other colour. The code accepts more: the queen's shape test
  passes as soon as one coordinate is unchanged, and \<^verbatim>\<open>is_clear_path\<close> lets such a
  vector through. On the board of \<^verbatim>\<open>test_queen_invalid_moves\<close> the white queen at
  (0,0,0) may move to the empty cell (2,1,0), a vector that the rook's and the bishop's
  own methods both refuse for the same object; the test expects False.
\<close>

theorem queen_accepts_irregular_vector:
  "get_piece queen_scene (0, 0, 0) = Some 0 \<and> cls (objs queen_scene 0) = Queen \<and>
   position (objs queen_scene 0) = (0, 0, 0) \<and> is_within_bounds queen_scene (2, 1, 0) \<and>
   get_piece queen_scene (2, 1, 0) = None \<and>
   is_valid_move queen_scene 0 (2, 1, 0) = True \<and>
   Rook_is_valid_move queen_scene 0 (2, 1, 0) = False \<and>
   Bishop_is_valid_move queen_scene 0 (2, 1, 0) = False"
  by (simp add: queen_scene_facts move_defs Queen_is_valid_move_def Rook_is_valid_move_def
      Bishop_is_valid_move_def)

section \<open>The pawn\<close>

text \<open>
  C2. The claim: a pawn captures diagonally when the x delta is its forward direction,
  exactly one of the y and z deltas has absolute value 1 and the other is 0, and the
  destination holds the other colour; in particular a capture with z delta 1 and y delta
  0 is legal. The code only accepts the capture with \<open>|dy| = 1\<close> and \<open>dz = 0\<close>: the
  white pawn at (1,1,1) may not take the black pawn at (2,1,2), and \<^verbatim>\<open>move_piece\<close>
  leaves the board as it is.
\<close>

theorem pawn_rejects_z_capture:
  "get_piece pawn_scene (1, 1, 1) = Some 0 \<and> cls (objs pawn_scene 0) = Pawn \<and>
   color (objs pawn_scene 0) = ''W'' \<and> position (objs pawn_scene 0) = (1, 1, 1) \<and>
   get_piece pawn_scene (2, 1, 2) = Some 1 \<and> color (objs pawn_scene 1) = ''B'' \<and>
   is_within_bounds pawn_scene (2, 1, 2) \<and>
   is_valid_move pawn_scene 0 (2, 1, 2) = False \<and>
   move_piece pawn_scene (1, 1, 1) (2, 1, 2) = (False, pawn_scene)"
  by (simp add: pawn_scene_facts is_valid_move_def Pawn_is_valid_move_def move_piece_def)

section \<open>Path clearance\<close>

text \<open>
  C3. The claim: for a delta that is neither a straight line along one axis nor a
  diagonal, such as (2,1,0), \<^verbatim>\<open>is_clear_path\<close> returns False. The shape test of the code
  lets every delta with a zero component through: on the empty board
  \<^verbatim>\<open>is_clear_path(board, (0,0,0), (2,1,0))\<close> walks the one cell (1,0,0) and returns True,
  where \<^verbatim>\<open>test_is_clear_path_invalid_movement\<close> expects False.
\<close>

theorem is_clear_path_accepts_irregular_vector:
  "is_clear_path empty_board (0, 0, 0) (2, 1, 0) = True"
  by (simp add: empty_board_def get_piece_def is_clear_path.simps)

text \<open>
  C10. For every board state and every position \<open>p\<close>, \<^verbatim>\<open>is_clear_path(board, p, p)\<close>
  returns True: with a zero delta the number of steps is 0 and the function answers
  before looking at the board.
\<close>

theorem is_clear_path_same_position: "is_clear_path s p p = True"
  by (cases p) (simp add: is_clear_path.simps)

theorem is_clear_path_same_position_witness:
  "is_clear_path rook_scene (0, 0, 3) (0, 0, 3) = True"
  by (rule is_clear_path_same_position)

section \<open>The cached position\<close>

text \<open>
  C9. For every in-bounds position \<open>p\<close> and every piece object \<open>q\<close>,
  \<^verbatim>\<open>set_piece(p, q)\<close> stores \<open>q\<close> under the key \<open>p\<close> and changes no Piece object, so
  the \<^verbatim>\<open>position\<close> attribute of \<open>q\<close> is what it was: when it differed from \<open>p\<close>, the
  piece is now stored under a key other than its cached position. Nor does
  \<^verbatim>\<open>initialize_board\<close> touch an object that existed before; the one assignment to
  \<^verbatim>\<open>position\<close> is in \<^verbatim>\<open>move_piece\<close>.
\<close>

theorem set_piece_keeps_cache:
  assumes "is_within_bounds s p"
  shows "get_piece (set_piece s p (Some q)) p = Some q \<and>
         objs (set_piece s p (Some q)) = objs s \<and>
         (position (objs s q) \<noteq> p \<longrightarrow> position (objs (set_piece s p (Some q)) q) \<noteq> p) \<and>
         (\<forall>s'. initialize_board s = Inr s' \<longrightarrow> (\<forall>r < fresh s. objs s' r = objs s r))"
proof (intro conjI allI impI)
  show "get_piece (set_piece s p (Some q)) p = Some q"
    using assms by (simp add: get_piece_set_piece)
  show "objs (set_piece s p (Some q)) = objs s" by simp
  show "position (objs (set_piece s p (Some q)) q) \<noteq> p" if "position (objs s q) \<noteq> p"
    using that by simp
  show "objs s' r = objs s r" if "initialize_board s = Inr s'" "r < fresh s" for s' r
    using initialize_board_frame [OF that(1)] that(2) by blast
qed

theorem set_piece_keeps_cache_witness:
  "is_within_bounds (snd rook_made) (3, 0, 0) \<and>
   get_piece misplaced_rook (3, 0, 0) = Some (fst rook_made) \<and>
   position (objs misplaced_rook (fst rook_made)) = (0, 0, 0)"
proof -
  have b: "is_within_bounds (snd rook_made) (3, 0, 0)" by (simp add: rook_made_facts)
  from set_piece_keeps_cache [OF b, of "fst rook_made"]
  have "get_piece misplaced_rook (3, 0, 0) = Some (fst rook_made)"
    and "objs misplaced_rook = objs (snd rook_made)"
    by (simp_all add: misplaced_rook_def)
  with b rook_made_facts(6) show ?thesis by simp
qed

text \<open>
  C4, as stated, fails: on a new default board, a rook created with position (0,0,0)
  and stored with \<^verbatim>\<open>set_piece((3, 0, 0), rook)\<close> sits under the key (3,0,0) while its
  \<^verbatim>\<open>position\<close> attribute is still (0,0,0).
\<close>

theorem set_piece_breaks_cache_counterexample:
  "reach default_board \<and>
   create_piece ''R'' ''W'' (0, 0, 0) default_board = Inr rook_made \<and>
   misplaced_rook = set_piece (snd rook_made) (3, 0, 0) (Some (fst rook_made)) \<and>
   get_piece misplaced_rook (3, 0, 0) = Some (fst rook_made) \<and>
   position (objs misplaced_rook (fst rook_made)) = (0, 0, 0) \<and>
   \<not> cache_synced misplaced_rook"
proof -
  have r: "reach default_board" using default_board_facts(1) by (rule reach_new)
  have c: "create_piece ''R'' ''W'' (0, 0, 0) default_board = Inr rook_made"
    using rook_made_facts(1) by simp
  have g: "get_piece misplaced_rook (3, 0, 0) = Some (fst rook_made)"
    by (simp add: misplaced_rook_def get_piece_set_piece rook_made_facts)
  have p: "position (objs misplaced_rook (fst rook_made)) = (0, 0, 0)"
    by (simp add: misplaced_rook_def rook_made_facts)
  have "((3, 0, 0), fst rook_made) \<in> set (pieces misplaced_rook)"
    using g by (rule entry_get_piece)
  with p have "\<not> cache_synced misplaced_rook"
    unfolding cache_synced_def list_all_iff by force
  with r c g p show ?thesis by (simp add: misplaced_rook_def)
qed

text \<open>
  C4, amended. For every sequence of Board operations starting from a new board
  (\<^verbatim>\<open>initialize_board\<close>, \<^verbatim>\<open>move_piece\<close>, \<^verbatim>\<open>set_piece\<close> with \<^verbatim>\<open>None\<close>, and \<^verbatim>\<open>set_piece(p, piece)\<close>
  with a piece whose \<^verbatim>\<open>position\<close> attribute is \<open>p\<close>, pieces being created by the
  factory in between), every Piece stored in the occupancy dictionary has its
  \<^verbatim>\<open>position\<close> attribute equal to the key under which it is stored.
\<close>

theorem reach_cache_synced:
  assumes "reach s" and "(p, piece) \<in> set (pieces s)"
  shows "position (objs s piece) = p"
  using board_invD(3) [OF reach_board_inv [OF assms(1)] assms(2)] .

theorem reach_cache_synced_witness:
  "reach placed_rook \<and> ((0, 0, 0), fst rook_made) \<in> set (pieces placed_rook) \<and>
   position (objs placed_rook (fst rook_made)) = (0, 0, 0)"
proof -
  have r1: "reach default_board" using default_board_facts(1) by (rule reach_new)
  have r2: "reach (snd rook_made)" using r1 rook_made_facts(1) by (rule reach_create)
  have r3: "reach placed_rook"
    unfolding placed_rook_def using r2 rook_made_facts(5) rook_made_facts(6) by (rule reach_set)
  have "get_piece placed_rook (0, 0, 0) = Some (fst rook_made)"
    by (simp add: placed_rook_def get_piece_set_piece rook_made_facts)
  then have e: "((0, 0, 0), fst rook_made) \<in> set (pieces placed_rook)" by (rule entry_get_piece)
  from reach_cache_synced [OF r3 e] r3 e show ?thesis by simp
qed

section \<open>Moving a piece\<close>

text \<open>
  C5, as stated, fails: the dictionary holds references, and one Piece object can be
  stored under two keys. With the black pawn of the rook position also stored at
  (0,3,0), the rook's capture at (0,0,3) returns True and the pawn, the previous occupant
  of (0,0,3), is still on the board at (0,3,0).
\<close>

theorem move_piece_alias_counterexample:
  "keys_in_bounds alias_scene \<and>
   get_piece alias_scene (0, 0, 3) = Some 1 \<and>
   fst (move_piece alias_scene (0, 0, 0) (0, 0, 3)) = True \<and>
   get_piece (snd (move_piece alias_scene (0, 0, 0) (0, 0, 3))) (0, 3, 0) = Some 1"
proof -
  have k: "keys_in_bounds alias_scene" by (simp add: keys_in_bounds_def alias_scene_facts)
  have g: "get_piece alias_scene (0, 0, 0) = Some 0" "get_piece alias_scene (0, 0, 3) = Some 1"
    "get_piece alias_scene (0, 3, 0) = Some 1" "get_piece alias_scene (0, 0, 1) = None"
    "get_piece alias_scene (0, 0, 2) = None"
    by (simp_all add: get_piece_def alias_scene_facts)
  have v: "is_valid_move alias_scene 0 (0, 0, 3)"
    by (simp add: g alias_scene_facts move_defs Rook_is_valid_move_def)
  have m: "move_piece alias_scene (0, 0, 0) (0, 0, 3) =
             (True, (set_piece (set_piece alias_scene (0, 0, 3) (Some 0)) (0, 0, 0) None)
                \<lparr>objs := (objs alias_scene)(0 := (objs alias_scene 0)\<lparr>position := (0, 0, 3)\<rparr>)\<rparr>)"
    by (simp add: move_piece_def g(1) v)
  have "get_piece (snd (move_piece alias_scene (0, 0, 0) (0, 0, 3))) (0, 3, 0) = Some 1"
    by (simp add: m get_piece_set_piece g(3))
  with k g(2) m show ?thesis by simp
qed

text \<open>
  C5, amended. For every board state whose occupied keys are in bounds and all positions
  \<open>from\<close>, \<open>to\<close>: if \<^verbatim>\<open>move_piece(from, to)\<close> returns True, then afterwards
  \<^verbatim>\<open>get_piece(from)\<close> is None, \<^verbatim>\<open>get_piece(to)\<close> is the moved piece, the moved piece's
  \<^verbatim>\<open>position\<close> equals \<open>to\<close>, and the previous occupant of \<open>to\<close> (if any) is no longer at
  \<open>to\<close>; it is no longer anywhere on the board provided it was stored under no other
  position before the move.
\<close>

theorem move_piece_success:
  assumes "keys_in_bounds s" and "move_piece s from_pos to_pos = (True, s')"
  shows "\<exists>piece. get_piece s from_pos = Some piece \<and>
           get_piece s' from_pos = None \<and>
           get_piece s' to_pos = Some piece \<and>
           position (objs s' piece) = to_pos \<and>
           (\<forall>q. get_piece s to_pos = Some q \<longrightarrow>
                get_piece s' to_pos \<noteq> Some q \<and>
                ((\<forall>k. k \<noteq> to_pos \<longrightarrow> get_piece s k \<noteq> Some q) \<longrightarrow>
                 (\<forall>k. get_piece s' k \<noteq> Some q)))"
proof -
  from assms(2) obtain piece where g: "get_piece s from_pos = Some piece"
    and v: "is_valid_move s piece to_pos"
    and s': "s' = (set_piece (set_piece s to_pos (Some piece)) from_pos None)
                    \<lparr>objs := (objs s)(piece := (objs s piece)\<lparr>position := to_pos\<rparr>)\<rparr>"
    by (rule move_piece_True)
  have fb: "is_within_bounds s from_pos" using assms(1) g by (rule keys_in_boundsD)
  have tb: "is_within_bounds s to_pos" using v by (rule is_valid_move_in_bounds)
  have ne: "to_pos \<noteq> from_pos"
    using v g is_valid_move_occupied_same_color [of s from_pos piece piece] by auto
  have look: "get_piece s' k = (if k = from_pos then None else if k = to_pos then Some piece
                                 else get_piece s k)" for k
    using fb tb by (simp add: s' get_piece_set_piece)
  have diff: "q \<noteq> piece" if "get_piece s to_pos = Some q" for q
    using that v is_valid_move_occupied_same_color [of s to_pos q piece] by auto
  have "get_piece s' from_pos = None" by (simp add: look)
  moreover have "get_piece s' to_pos = Some piece" using ne by (simp add: look)
  moreover have "position (objs s' piece) = to_pos" by (simp add: s')
  moreover have "\<forall>q. get_piece s to_pos = Some q \<longrightarrow>
                get_piece s' to_pos \<noteq> Some q \<and>
                ((\<forall>k. k \<noteq> to_pos \<longrightarrow> get_piece s k \<noteq> Some q) \<longrightarrow>
                 (\<forall>k. get_piece s' k \<noteq> Some q))"
    using diff ne by (auto simp: look)
  ultimately show ?thesis using g by blast
qed

theorem move_piece_success_witness:
  "keys_in_bounds rook_scene \<and> fst (move_piece rook_scene (0, 0, 0) (0, 0, 3)) = True \<and>
   get_piece rook_scene (0, 0, 0) = Some 0 \<and> get_piece rook_scene (0, 0, 3) = Some 1 \<and>
   get_piece (snd (move_piece rook_scene (0, 0, 0) (0, 0, 3))) (0, 0, 0) = None \<and>
   get_piece (snd (move_piece rook_scene (0, 0, 0) (0, 0, 3))) (0, 0, 3) = Some 0 \<and>
   position (objs (snd (move_piece rook_scene (0, 0, 0) (0, 0, 3))) 0) = (0, 0, 3) \<and>
   (\<forall>k. get_piece (snd (move_piece rook_scene (0, 0, 0) (0, 0, 3))) k \<noteq> Some 1)"
proof -
  let ?s' = "snd (move_piece rook_scene (0, 0, 0) (0, 0, 3))"
  have k: "keys_in_bounds rook_scene" by (simp add: keys_in_bounds_def rook_scene_facts)
  have g: "get_piece rook_scene (0, 0, 0) = Some 0" "get_piece rook_scene (0, 0, 3) = Some 1"
    "get_piece rook_scene (0, 0, 1) = None" "get_piece rook_scene (0, 0, 2) = None"
    by (simp_all add: get_piece_def rook_scene_facts)
  have only: "\<forall>k. k \<noteq> (0, 0, 3) \<longrightarrow> get_piece rook_scene k \<noteq> Some 1"
    by (simp add: get_piece_def rook_scene_facts)
  have v: "is_valid_move rook_scene 0 (0, 0, 3)"
    by (simp add: g rook_scene_facts move_defs Rook_is_valid_move_def)
  have f: "fst (move_piece rook_scene (0, 0, 0) (0, 0, 3)) = True"
    by (simp add: move_piece_def g(1) v)
  then have m: "move_piece rook_scene (0, 0, 0) (0, 0, 3) = (True, ?s')"
    by (simp add: prod_eq_iff)
  from move_piece_success [OF k m] obtain piece where
    p: "get_piece rook_scene (0, 0, 0) = Some piece" "get_piece ?s' (0, 0, 0) = None"
      "get_piece ?s' (0, 0, 3) = Some piece" "position (objs ?s' piece) = (0, 0, 3)"
    and q: "\<forall>q. get_piece rook_scene (0, 0, 3) = Some q \<longrightarrow>
                get_piece ?s' (0, 0, 3) \<noteq> Some q \<and>
                ((\<forall>k. k \<noteq> (0, 0, 3) \<longrightarrow> get_piece rook_scene k \<noteq> Some q) \<longrightarrow>
                 (\<forall>k. get_piece ?s' k \<noteq> Some q))"
    by blast
  from p(1) g(1) have piece: "piece = 0" by simp
  from q g(2) only have gone: "\<forall>k. get_piece ?s' k \<noteq> Some 1" by blast
  from k f g(1,2) p(2,3,4) piece gone show ?thesis by simp
qed

text \<open>
  C6. For every board state and positions \<open>from\<close>, \<open>to\<close>: whenever \<^verbatim>\<open>get_piece(from)\<close>
  is None, or \<open>to = from\<close>, or \<open>to\<close> is out of bounds, or the movement predicate of the
  piece at \<open>from\<close> rejects \<open>to\<close>, \<^verbatim>\<open>move_piece(from, to)\<close> returns False and the state,
  the occupancy dictionary with it, is exactly what it was.
\<close>

theorem move_piece_failure:
  assumes "get_piece s from_pos = None \<or> to_pos = from_pos \<or> \<not> is_within_bounds s to_pos \<or>
           (\<exists>piece. get_piece s from_pos = Some piece \<and> \<not> is_valid_move s piece to_pos)"
  shows "move_piece s from_pos to_pos = (False, s)"
proof (cases "get_piece s from_pos")
  case None
  then show ?thesis by (simp add: move_piece_def)
next
  case (Some piece)
  have "\<not> is_valid_move s piece to_pos"
  proof
    assume v: "is_valid_move s piece to_pos"
    with Some assms have "to_pos = from_pos \<or> \<not> is_within_bounds s to_pos" by auto
    then show False using v Some is_valid_move_occupied_same_color [of s from_pos piece piece]
        is_valid_move_in_bounds [OF v] by auto
  qed
  with Some show ?thesis by (simp add: move_piece_def)
qed

theorem move_piece_failure_witness:
  "move_piece rook_scene (5, 0, 0) (6, 0, 0) = (False, rook_scene) \<and>
   move_piece rook_scene (0, 0, 0) (0, 0, 0) = (False, rook_scene) \<and>
   move_piece rook_scene (0, 0, 0) (0, 0, 4) = (False, rook_scene) \<and>
   move_piece rook_scene (0, 0, 0) (1, 1, 1) = (False, rook_scene)"
proof -
  have 1: "get_piece rook_scene (5, 0, 0) = None" by (simp add: get_piece_def rook_scene_facts)
  have 3: "\<not> is_within_bounds rook_scene (0, 0, 4)" by (simp add: rook_scene_facts)
  have 4: "get_piece rook_scene (0, 0, 0) = Some 0 \<and> \<not> is_valid_move rook_scene 0 (1, 1, 1)"
    by (simp add: get_piece_def rook_scene_facts is_valid_move_def Rook_is_valid_move_def)
  have a: "move_piece rook_scene (5, 0, 0) (6, 0, 0) = (False, rook_scene)"
    by (rule move_piece_failure, rule disjI1, rule 1)
  have b: "move_piece rook_scene (0, 0, 0) (0, 0, 0) = (False, rook_scene)"
    by (rule move_piece_failure, rule disjI2, rule disjI1, rule refl)
  have c: "move_piece rook_scene (0, 0, 0) (0, 0, 4) = (False, rook_scene)"
    by (rule move_piece_failure, rule disjI2, rule disjI2, rule disjI1, rule 3)
  have d: "move_piece rook_scene (0, 0, 0) (1, 1, 1) = (False, rook_scene)"
    by (rule move_piece_failure, rule disjI2, rule disjI2, rule disjI2, rule exI [of _ 0], rule 4)
  from a b c d show ?thesis by simp
qed

section \<open>Game over\<close>

text \<open>
  C7. For every board state and every colour \<open>c\<close>, \<^verbatim>\<open>is_game_over(c)\<close> returns True iff
  no entry of the occupancy dictionary is a piece of colour \<open>c\<close> and class King.
\<close>

theorem is_game_over_iff:
  "is_game_over s c \<longleftrightarrow>
     \<not> (\<exists>p piece. (p, piece) \<in> set (pieces s) \<and> color (objs s piece) = c \<and> cls (objs s piece) = King)"
proof -
  have "is_game_over s c \<longleftrightarrow>
          (\<forall>piece \<in> snd ` set (pieces s). \<not> (color (objs s piece) = c \<and> cls (objs s piece) = King))"
    by (auto simp: is_game_over_def Let_def filter_empty_conv)
  also have "\<dots> \<longleftrightarrow> \<not> (\<exists>p piece. (p, piece) \<in> set (pieces s) \<and> color (objs s piece) = c \<and>
                          cls (objs s piece) = King)"
    by force
  finally show ?thesis .
qed

theorem is_game_over_iff_witness:
  "is_game_over king_scene ''B'' \<and> \<not> is_game_over king_scene ''W''"
proof -
  have "is_game_over king_scene ''B''"
    unfolding is_game_over_iff by (simp add: king_scene_facts)
  moreover have "\<not> is_game_over king_scene ''W''"
    unfolding is_game_over_iff by (simp add: king_scene_facts)
  ultimately show ?thesis by simp
qed

section \<open>The knight\<close>

text \<open>
  C8. For every knight with \<^verbatim>\<open>position\<close> \<open>o\<close> and every in-bounds destination \<open>t \<noteq> o\<close>:
  the move is accepted iff the squared Euclidean length of \<open>t - o\<close> is 5 and \<open>t\<close> is empty
  or holds a piece of the other colour; the squared length is 5 iff the absolute deltas
  are 0, 1 and 2 in some order; and the answer is the same on every board of the same
  dimensions that agrees with this one at \<open>o\<close> and \<open>t\<close>, whatever its other cells hold.
\<close>

theorem knight_move:
  assumes "cls (objs s k) = Knight" and "position (objs s k) = (ox, oy, oz)"
    and "is_within_bounds s (tx, ty, tz)" and "(tx, ty, tz) \<noteq> (ox, oy, oz)"
  shows "(is_valid_move s k (tx, ty, tz) \<longleftrightarrow>
           (tx - ox)\<^sup>2 + (ty - oy)\<^sup>2 + (tz - oz)\<^sup>2 = 5 \<and>
           (get_piece s (tx, ty, tz) = None \<or>
            (\<exists>q. get_piece s (tx, ty, tz) = Some q \<and> color (objs s q) \<noteq> color (objs s k)))) \<and>
         ((tx - ox)\<^sup>2 + (ty - oy)\<^sup>2 + (tz - oz)\<^sup>2 = 5 \<longleftrightarrow>
           (\<bar>tx - ox\<bar>, \<bar>ty - oy\<bar>, \<bar>tz - oz\<bar>) \<in>
             {(0, 1, 2), (0, 2, 1), (1, 0, 2), (1, 2, 0), (2, 0, 1), (2, 1, 0)}) \<and>
         (\<forall>s'. nx s' = nx s \<and> ny s' = ny s \<and> nz s' = nz s \<and> objs s' = objs s \<and>
              get_piece s' (ox, oy, oz) = get_piece s (ox, oy, oz) \<and>
              get_piece s' (tx, ty, tz) = get_piece s (tx, ty, tz) \<longrightarrow>
              is_valid_move s' k (tx, ty, tz) = is_valid_move s k (tx, ty, tz))"
proof (intro conjI)
  show "is_valid_move s k (tx, ty, tz) \<longleftrightarrow>
           (tx - ox)\<^sup>2 + (ty - oy)\<^sup>2 + (tz - oz)\<^sup>2 = 5 \<and>
           (get_piece s (tx, ty, tz) = None \<or>
            (\<exists>q. get_piece s (tx, ty, tz) = Some q \<and> color (objs s q) \<noteq> color (objs s k)))"
    using assms by (simp add: is_valid_move_def Knight_is_valid_move_def Let_def may_land_iff)
  show "(tx - ox)\<^sup>2 + (ty - oy)\<^sup>2 + (tz - oz)\<^sup>2 = 5 \<longleftrightarrow>
           (\<bar>tx - ox\<bar>, \<bar>ty - oy\<bar>, \<bar>tz - oz\<bar>) \<in>
             {(0, 1, 2), (0, 2, 1), (1, 0, 2), (1, 2, 0), (2, 0, 1), (2, 1, 0)}"
    by (rule knight_shape)
  show "\<forall>s'. nx s' = nx s \<and> ny s' = ny s \<and> nz s' = nz s \<and> objs s' = objs s \<and>
              get_piece s' (ox, oy, oz) = get_piece s (ox, oy, oz) \<and>
              get_piece s' (tx, ty, tz) = get_piece s (tx, ty, tz) \<longrightarrow>
              is_valid_move s' k (tx, ty, tz) = is_valid_move s k (tx, ty, tz)"
  proof (intro allI impI, elim conjE)
    fix s'
    assume d: "nx s' = nx s" "ny s' = ny s" "nz s' = nz s" and o: "objs s' = objs s"
      and g: "get_piece s' (tx, ty, tz) = get_piece s (tx, ty, tz)"
    show "is_valid_move s' k (tx, ty, tz) = is_valid_move s k (tx, ty, tz)"
      by (simp add: is_valid_move_def Knight_is_valid_move_def Let_def may_land_iff d o g assms)
  qed
qed

theorem knight_move_witness:
  "cls (objs knight_scene 0) = Knight \<and> position (objs knight_scene 0) = (1, 1, 1) \<and>
   is_within_bounds knight_scene (3, 2, 1) \<and> get_piece knight_scene (2, 1, 1) = Some 1 \<and>
   is_valid_move knight_scene 0 (3, 2, 1)"
proof -
  have c: "cls (objs knight_scene 0) = Knight"
    and p: "position (objs knight_scene 0) = (1, 1, 1)"
    and b: "is_within_bounds knight_scene (3, 2, 1)"
    and n: "(3, 2, 1) \<noteq> ((1::int), (1::int), (1::int))"
    and e: "get_piece knight_scene (3, 2, 1) = None"
    and j: "get_piece knight_scene (2, 1, 1) = Some 1"
    by (simp_all add: get_piece_def knight_scene_facts)
  from knight_move [OF c p b n]
  have "is_valid_move knight_scene 0 (3, 2, 1) \<longleftrightarrow>
          (3 - 1)\<^sup>2 + (2 - 1)\<^sup>2 + (1 - 1)\<^sup>2 = (5::int) \<and>
          (get_piece knight_scene (3, 2, 1) = None \<or>
           (\<exists>q. get_piece knight_scene (3, 2, 1) = Some q \<and>
                color (objs knight_scene q) \<noteq> color (objs knight_scene 0)))"
    by (rule conjunct1)
  then have "is_valid_move knight_scene 0 (3, 2, 1)" using e by simp
  with c p b j show ?thesis by simp
qed

end
